theory Spec2Isabelle
  imports Main "HOL-Library.Multiset" "HOL-Library.Sublist"
begin

section \<open>Data model\<close>

text \<open>
  A record of domain data is a flat JSON object; the aggregation only concatenates and
  counts records. A source is one entry of the static configuration list. The program
  reads the keys \<open>url\<close>, \<open>public_key\<close> and \<open>private_key\<close> of every entry when the module is
  loaded and the keys \<open>region\<close> and \<open>environment\<close> of every entry at the start of each page
  handler, so an entry that reaches the aggregation has all five and
  \<open>ops_manager.get(k, default)\<close> is the value stored under \<open>k\<close>.
\<close>

type_synonym row = "(string \<times> string) list"

record ops_manager =
  url :: string
  public_key :: string
  private_key :: string
  region :: string
  environment :: string

text \<open>
  A cache file holds the envelope written by \<open>save_cache\<close>, a bare record list (the old
  format), or bytes that \<open>open\<close>/\<open>json.load\<close> cannot read; the last carries the text
  of the exception. An exception is represented by its \<open>str(e)\<close>.
\<close>

type_synonym exn = string

datatype cache_file = Envelope string "row list" | Legacy "row list" | Unparseable exn

text \<open>
  The mutable part of the world: the cache directory, and the log of base URLs for which
  a source adapter has been invoked (one entry per network fetch).
\<close>

record world =
  files :: "string \<Rightarrow> cache_file option"
  api_calls :: "string list"

text \<open>
  What a source adapter gives back: a value (\<open>None\<close> or a list) or an exception.
\<close>

datatype adapter_result = Returned "row list option" | Raised exn

text \<open>
  How a write of a cache file fails. \<open>Not_opened x\<close>: \<open>os.makedirs\<close> or
  \<open>open(filename, 'w')\<close> raised \<open>x\<close>, and the file is as it was. \<open>Dump_failed x y\<close>:
  \<open>open(filename, 'w')\<close> had created or truncated the file when \<open>json.dump\<close> raised \<open>x\<close>;
  the file then holds a proper prefix of the JSON text (possibly nothing), on which a
  later \<open>json.load\<close> raises \<open>y\<close>.
\<close>

datatype write_failure = Not_opened exn | Dump_failed exn exn

text \<open>
  The frozen surroundings of one request: the answers of the remote instances, the
  outcome of file writes and removals, and the clock. The backup and monitoring adapters
  walk the REST hierarchy with \<open>requests\<close> and \<open>pandas\<close>; their result per source is a
  parameter. The four storage listings are the leaves of the backup-storage adapter,
  which is modelled below; each of them catches every exception and returns a list.
\<close>

record env =
  gather_data_for_credentials :: "string \<Rightarrow> string \<Rightarrow> string \<Rightarrow> adapter_result"
  gather_monitoring_data_for_credentials :: "string \<Rightarrow> string \<Rightarrow> string \<Rightarrow> adapter_result"
  get_snapshot_blockstore :: "string \<Rightarrow> string \<Rightarrow> string \<Rightarrow> row list"
  get_snapshot_s3config :: "string \<Rightarrow> string \<Rightarrow> string \<Rightarrow> row list"
  get_oplog_store :: "string \<Rightarrow> string \<Rightarrow> string \<Rightarrow> row list"
  get_oplog_s3config :: "string \<Rightarrow> string \<Rightarrow> string \<Rightarrow> row list"
  urlparse_hostname :: "string \<Rightarrow> string option"
  write_error :: "string \<Rightarrow> write_failure option"
  remove_error :: "string \<Rightarrow> exn option"
  now_isoformat :: string

text \<open>The outcome of the fetch policy for one source (a dict with these four keys).\<close>

record fetch_result =
  data :: "row list"
  fetched :: nat
  cached :: nat
  error :: "string option"

text \<open>The tuple returned by the aggregation, and the accumulator it is built from.\<close>

record aggregate =
  all_data :: "row list"
  status_message :: string
  status_type :: string
  total_fetched :: nat
  total_cached :: nat
  errors :: "string list"

type_synonym accumulator = "row list \<times> nat \<times> nat \<times> string list"

section \<open>Python helpers\<close>

text \<open>Truth value of a value that is \<open>None\<close> or a list, and of one that is \<open>None\<close> or a string.\<close>

fun truthy :: "'a list option \<Rightarrow> bool" where
  "truthy None = False"
| "truthy (Some xs) = (xs \<noteq> [])"

fun rows_of :: "row list option \<Rightarrow> row list" where
  "rows_of None = []"
| "rows_of (Some xs) = xs"

fun text_of :: "string option \<Rightarrow> string" where
  "text_of None = []"
| "text_of (Some s) = s"

text \<open>\<open>sep.join(xs)\<close>.\<close>

fun join :: "string \<Rightarrow> string list \<Rightarrow> string" where
  "join sep [] = []"
| "join sep [x] = x"
| "join sep (x # y # ys) = x @ sep @ join sep (y # ys)"

text \<open>\<open>str(n)\<close> for a count.\<close>

function str :: "nat \<Rightarrow> string" where
  "str n = (if n < 10 then [''0123456789'' ! n] else str (n div 10) @ [''0123456789'' ! (n mod 10)])"
  by pat_completeness auto
termination
  by (relation "measure id") auto

declare str.simps [simp del]

text \<open>\<open>d[k] = v\<close> on a dict kept as an association list in insertion order.\<close>

fun dict_set :: "string \<Rightarrow> string \<Rightarrow> row \<Rightarrow> row" where
  "dict_set k v [] = [(k, v)]"
| "dict_set k v ((k', v') # d) = (if k' = k then (k, v) # d else (k', v') # dict_set k v d)"

section \<open>Cache store\<close>

definition alnum :: "char \<Rightarrow> bool" where
  "alnum c = (let n = (of_char c :: nat) in
     (97 \<le> n \<and> n \<le> 122) \<or> (65 \<le> n \<and> n \<le> 90) \<or> (48 \<le> n \<and> n \<le> 57))"

definition get_cache_filename :: "string \<Rightarrow> string \<Rightarrow> string" where
  "get_cache_filename ops_manager_name cache_type =
     (let safe_name = map (\<lambda>c. if alnum c then c else CHR ''_'') ops_manager_name;
          filename = ''cached_'' @ safe_name @ ''.json''
      in ''cache/'' @ cache_type @ ''/'' @ filename)"

definition load_cache :: "world \<Rightarrow> string \<Rightarrow> exn + row list option" where
  "load_cache w filename =
     (case files w filename of
        None \<Rightarrow> Inr None
      | Some (Envelope t d) \<Rightarrow> Inr (Some d)
      | Some (Legacy d) \<Rightarrow> Inr (Some d)
      | Some (Unparseable e) \<Rightarrow> Inl e)"

text \<open>
  \<open>save_cache\<close> re-raises whatever \<open>makedirs\<close>, \<open>open\<close> or \<open>json.dump\<close> raised. When the
  file had been opened for writing, it is left truncated.
\<close>

definition save_cache :: "env \<Rightarrow> row list \<Rightarrow> string \<Rightarrow> world \<Rightarrow> (exn + unit) \<times> world" where
  "save_cache e d filename w =
     (case write_error e filename of
        Some (Not_opened x) \<Rightarrow> (Inl x, w)
      | Some (Dump_failed x y) \<Rightarrow> (Inl x, w\<lparr>files := (files w)(filename := Some (Unparseable y))\<rparr>)
      | None \<Rightarrow> (Inr (), w\<lparr>files := (files w)(filename := Some (Envelope (now_isoformat e) d))\<rparr>))"

definition get_cache_timestamp :: "world \<Rightarrow> string \<Rightarrow> exn + string option" where
  "get_cache_timestamp w filename =
     (case files w filename of
        None \<Rightarrow> Inr None
      | Some (Envelope t d) \<Rightarrow> Inr (Some t)
      | Some (Legacy d) \<Rightarrow> Inr None
      | Some (Unparseable e) \<Rightarrow> Inl e)"

definition clear_cache :: "env \<Rightarrow> string \<Rightarrow> world \<Rightarrow> (exn + unit) \<times> world" where
  "clear_cache e filename w =
     (if files w filename \<noteq> None then
        (case remove_error e filename of
           Some x \<Rightarrow> (Inl x, w)
         | None \<Rightarrow> (Inr (), w\<lparr>files := (files w)(filename := None)\<rparr>))
      else (Inr (), w))"

section \<open>Source adapters\<close>

text \<open>
  \<open>gather_backup_storage_for_credentials\<close>: the four listings are concatenated, every
  configuration gets the key \<open>Ops Manager\<close>, and an empty result is turned into \<open>None\<close>.
\<close>

definition gather_backup_storage_for_credentials ::
  "env \<Rightarrow> string \<Rightarrow> string \<Rightarrow> string \<Rightarrow> row list option" where
  "gather_backup_storage_for_credentials e domain_url pk sk =
     (let all_configs = get_snapshot_blockstore e domain_url pk sk
                      @ get_snapshot_s3config e domain_url pk sk
                      @ get_oplog_store e domain_url pk sk
                      @ get_oplog_s3config e domain_url pk sk;
          label = (case urlparse_hostname e domain_url of
                     None \<Rightarrow> domain_url
                   | Some h \<Rightarrow> if h = [] then domain_url else h);
          all_configs = map (dict_set ''Ops Manager'' label) all_configs
      in if all_configs \<noteq> [] then Some all_configs else None)"

section \<open>Fetching one source\<close>

text \<open>
  \<open>adapter_answer\<close> is the value that the chain \<open>if data_type == 'monitoring' ... elif ...
  else ...\<close> of \<open>fetch_and_cache_data\<close> assigns to \<open>data\<close>, or the exception it raises.

  \<open>fetch_and_cache_data\<close>. Every invocation of an adapter is logged in \<open>api_calls\<close>. The
  only statement of the \<open>try\<close> block that can raise is the adapter call (a failing
  \<open>save_cache\<close> is caught by the inner handler), and the outer handler turns that
  exception into the second component of the result.
\<close>

definition adapter_answer :: "env \<Rightarrow> string \<Rightarrow> string \<Rightarrow> string \<Rightarrow> string \<Rightarrow> adapter_result" where
  "adapter_answer e data_type domain_url pk sk =
     (if data_type = ''monitoring'' then gather_monitoring_data_for_credentials e domain_url pk sk
      else if data_type = ''backup_storage'' then
        Returned (gather_backup_storage_for_credentials e domain_url pk sk)
      else gather_data_for_credentials e domain_url pk sk)"

definition fetch_and_cache_data ::
  "env \<Rightarrow> ops_manager \<Rightarrow> string \<Rightarrow> world \<Rightarrow> (row list \<times> string option) \<times> world" where
  "fetch_and_cache_data e om data_type w =
     (let domain_url = url om;
          pk = public_key om;
          sk = private_key om;
          w1 = w\<lparr>api_calls := api_calls w @ [domain_url]\<rparr>
      in case adapter_answer e data_type domain_url pk sk of
           Returned (Some d) \<Rightarrow>
             (let filename = get_cache_filename domain_url data_type
              in case save_cache e d filename w1 of
                   (Inr u, w2) \<Rightarrow> ((d, None), w2)
                 | (Inl cache_error, w2) \<Rightarrow> ((d, None), w2))
         | Returned None \<Rightarrow>
             (([], Some (''No '' @ data_type @ '' data returned from API for '' @ domain_url)), w1)
         | Raised x \<Rightarrow>
             (([], Some (''Failed to fetch '' @ data_type @ '' data from '' @ url om @ '': '' @ x)), w1))"

text \<open>
  \<open>fetch_single_ops_manager\<close>, the closure inside the concurrent aggregation, in two
  parts. \<open>fetch_single_body\<close> is its \<open>try\<close> block: it returns a result, or an exception
  leaves it (\<open>Inl\<close>). The statements of the block that can raise are \<open>load_cache\<close> and
  \<open>clear_cache\<close>; the exceptions of the adapter and of \<open>save_cache\<close> end inside
  \<open>fetch_and_cache_data\<close>, which returns a pair on every path.
\<close>

definition fetch_single_body ::
  "env \<Rightarrow> string \<Rightarrow> bool \<Rightarrow> ops_manager \<Rightarrow> world \<Rightarrow> (exn + fetch_result) \<times> world" where
  "fetch_single_body e data_type refresh_requested om w =
     (let domain_url = url om;
          filename = get_cache_filename domain_url data_type
      in case load_cache w filename of
           Inl x \<Rightarrow> (Inl x, w)
         | Inr cached_data \<Rightarrow>
             if refresh_requested \<or> \<not> truthy cached_data then
               (case (if refresh_requested \<and> truthy cached_data then clear_cache e filename w
                      else (Inr (), w)) of
                  (Inl x, w1) \<Rightarrow> (Inl x, w1)
                | (Inr u, w1) \<Rightarrow>
                    (case fetch_and_cache_data e om data_type w1 of
                       ((fresh_data, error_msg), w2) \<Rightarrow>
                         if truthy error_msg then
                           (if truthy cached_data then
                              (Inr \<lparr>data = rows_of cached_data, fetched = 0,
                                    cached = length (rows_of cached_data),
                                    error = Some (region om @ ''-'' @ environment om @ '': ''
                                                  @ text_of error_msg @ '' (using cache)'')\<rparr>, w2)
                            else
                              (Inr \<lparr>data = [], fetched = 0, cached = 0,
                                    error = Some (region om @ ''-'' @ environment om @ '': ''
                                                  @ text_of error_msg)\<rparr>, w2))
                         else
                           (Inr \<lparr>data = fresh_data, fetched = length fresh_data, cached = 0,
                                 error = None\<rparr>, w2)))
             else
               (Inr \<lparr>data = rows_of cached_data, fetched = 0,
                     cached = length (rows_of cached_data), error = None\<rparr>, w))"

text \<open>
  The handler \<open>except Exception as e\<close> of the closure catches whatever leaves the block
  and builds a result from \<open>ops_manager.get('url', 'Unknown')\<close> and \<open>str(e)\<close>, neither of
  which raises.
\<close>

definition fetch_single_ops_manager ::
  "env \<Rightarrow> string \<Rightarrow> bool \<Rightarrow> ops_manager \<Rightarrow> world \<Rightarrow> fetch_result \<times> world" where
  "fetch_single_ops_manager e data_type refresh_requested om w =
     (case fetch_single_body e data_type refresh_requested om w of
        (Inr result, w') \<Rightarrow> (result, w')
      | (Inl x, w') \<Rightarrow>
          (\<lparr>data = [], fetched = 0, cached = 0,
            error = Some (url om @ '': Unexpected error: '' @ x)\<rparr>, w'))"

section \<open>Concurrent aggregation\<close>

text \<open>
  The loop over \<open>as_completed\<close> is the only place that touches the accumulator. It sees
  the tasks in completion order. A task reads and writes the cache file of its own source
  and nothing else of the world, so tasks are run here one after the other in the order
  in which they complete; \<open>max_workers\<close> bounds how many of them are under way at a time
  and does not appear in any result. \<open>fetch_single_ops_manager\<close> returns a result on
  every path, hence \<open>future.result()\<close> does not raise and the handler around it is never
  entered.
\<close>

fun collect_results ::
  "env \<Rightarrow> string \<Rightarrow> bool \<Rightarrow> ops_manager list \<Rightarrow> accumulator \<Rightarrow> world \<Rightarrow> accumulator \<times> world" where
  "collect_results e data_type refresh_requested [] acc w = (acc, w)"
| "collect_results e data_type refresh_requested (om # rest) (ad, tf, tc, errs) w =
     (case fetch_single_ops_manager e data_type refresh_requested om w of
        (result, w') \<Rightarrow>
          collect_results e data_type refresh_requested rest
            (ad @ data result, tf + fetched result, tc + cached result,
             if truthy (error result) then errs @ [text_of (error result)] else errs) w')"

text \<open>The results of the tasks in the order in which the loop above receives them.\<close>

fun pool_results :: "env \<Rightarrow> string \<Rightarrow> bool \<Rightarrow> ops_manager list \<Rightarrow> world \<Rightarrow> fetch_result list" where
  "pool_results e data_type refresh_requested [] w = []"
| "pool_results e data_type refresh_requested (om # rest) w =
     (case fetch_single_ops_manager e data_type refresh_requested om w of
        (result, w') \<Rightarrow> result # pool_results e data_type refresh_requested rest w')"

text \<open>The status message and type built after the pool has drained.\<close>

definition completion_status :: "bool \<Rightarrow> nat \<Rightarrow> nat \<Rightarrow> nat \<Rightarrow> string list \<Rightarrow> string \<times> string" where
  "completion_status refresh_requested tf tc n errs =
     (if errs \<noteq> [] then
        (if tf > 0 \<or> tc > 0 then
           (if refresh_requested then
              ''Refresh completed with warnings. Fetched '' @ str tf @ '' records, used '' @ str tc
              @ '' cached records from '' @ str n @ '' Ops Managers. Issues: ''
              @ join ''; '' (take 3 errs) @ (if length errs > 3 then ''...'' else [])
            else
              ''Data loaded with warnings. Fetched '' @ str tf
              @ '' records from API (cache missing), used '' @ str tc
              @ '' cached records from '' @ str n @ '' Ops Managers. Issues: ''
              @ join ''; '' (take 3 errs) @ (if length errs > 3 then ''...'' else []),
            ''warning'')
         else
           (if refresh_requested then
              ''Refresh failed. Errors: ''
              @ join ''; '' (take 3 errs) @ (if length errs > 3 then ''...'' else [])
            else
              ''Data loading failed. Errors: ''
              @ join ''; '' (take 3 errs) @ (if length errs > 3 then ''...'' else []),
            ''error''))
      else
        (if refresh_requested then
           ''Refresh successful! Fetched '' @ str tf @ '' records from '' @ str n
           @ '' Ops Managers simultaneously.''
         else
           ''Data loaded successfully! Fetched '' @ str tf
           @ '' records from API (cache was missing) across '' @ str n @ '' Ops Managers.'',
         ''success''))"

text \<open>
  \<open>completion\<close> lists the positions of \<open>ops_managers_list\<close> in the order in which their
  tasks complete: a permutation of \<open>[0..<length ops_managers_list]\<close>, since every source
  is submitted once and every task completes.
\<close>

definition fetch_multiple_ops_managers_concurrent ::
  "env \<Rightarrow> ops_manager list \<Rightarrow> string \<Rightarrow> nat \<Rightarrow> bool \<Rightarrow> nat list \<Rightarrow> world \<Rightarrow> aggregate \<times> world" where
  "fetch_multiple_ops_managers_concurrent e ops_managers_list data_type max_workers
       refresh_requested completion w =
     (case collect_results e data_type refresh_requested
             (map (\<lambda>i. ops_managers_list ! i) completion) ([], 0, 0, []) w of
        ((ad, tf, tc, errs), w') \<Rightarrow>
          (case completion_status refresh_requested tf tc (length ops_managers_list) errs of
             (msg, ty) \<Rightarrow>
               (\<lparr>all_data = ad, status_message = msg, status_type = ty,
                 total_fetched = tf, total_cached = tc, errors = errs\<rparr>, w')))"

section \<open>The page handlers\<close>

text \<open>The count of sources whose cache is missing, as \<open>backup_page\<close> computes it.\<close>

fun missing_cache_count :: "string \<Rightarrow> ops_manager list \<Rightarrow> world \<Rightarrow> exn + nat" where
  "missing_cache_count cache_type [] w = Inr 0"
| "missing_cache_count cache_type (om # rest) w =
     (case load_cache w (get_cache_filename (url om) cache_type) of
        Inl x \<Rightarrow> Inl x
      | Inr cached_data \<Rightarrow>
          (case missing_cache_count cache_type rest w of
             Inl x \<Rightarrow> Inl x
           | Inr n \<Rightarrow> Inr (if \<not> truthy cached_data then n + 1 else n)))"

definition use_concurrent :: "string \<Rightarrow> bool \<Rightarrow> ops_manager list \<Rightarrow> world \<Rightarrow> exn + bool" where
  "use_concurrent cache_type refresh_requested matching_ops_managers w =
     (case missing_cache_count cache_type matching_ops_managers w of
        Inl x \<Rightarrow> Inl x
      | Inr n \<Rightarrow> Inr (refresh_requested \<or> n \<ge> 2))"

text \<open>
  The sequential loop of \<open>backup_page\<close> and \<open>monitoring_page\<close> (the two differ in the
  category string only). It has no handler: an exception of \<open>load_cache\<close> or
  \<open>clear_cache\<close> leaves the page handler.
\<close>

fun sequential_loop ::
  "env \<Rightarrow> string \<Rightarrow> bool \<Rightarrow> ops_manager list \<Rightarrow> accumulator \<Rightarrow> world \<Rightarrow> (exn + accumulator) \<times> world" where
  "sequential_loop e data_type refresh_requested [] acc w = (Inr acc, w)"
| "sequential_loop e data_type refresh_requested (om # rest) (ad, tf, tc, errs) w =
     (let filename = get_cache_filename (url om) data_type
      in case load_cache w filename of
           Inl x \<Rightarrow> (Inl x, w)
         | Inr cached_data \<Rightarrow>
             if refresh_requested \<or> \<not> truthy cached_data then
               (case (if refresh_requested \<and> truthy cached_data then clear_cache e filename w
                      else (Inr (), w)) of
                  (Inl x, w1) \<Rightarrow> (Inl x, w1)
                | (Inr u, w1) \<Rightarrow>
                    (case fetch_and_cache_data e om data_type w1 of
                       ((fresh_data, error_msg), w2) \<Rightarrow>
                         if truthy error_msg then
                           sequential_loop e data_type refresh_requested rest
                             (if truthy cached_data
                              then (ad @ rows_of cached_data, tf, tc + length (rows_of cached_data),
                                    errs @ [region om @ ''-'' @ environment om @ '': '' @ text_of error_msg])
                              else (ad, tf, tc,
                                    errs @ [region om @ ''-'' @ environment om @ '': '' @ text_of error_msg]))
                             w2
                         else
                           sequential_loop e data_type refresh_requested rest
                             (ad @ fresh_data, tf + length fresh_data, tc, errs) w2))
             else
               sequential_loop e data_type refresh_requested rest
                 (ad @ rows_of cached_data, tf, tc + length (rows_of cached_data), errs) w)"

text \<open>
  The status of the sequential path of \<open>backup_page\<close>; \<open>init\<close> is the message and type
  set before the loop.
\<close>

definition sequential_status :: "bool \<Rightarrow> nat \<Rightarrow> nat \<Rightarrow> string list \<Rightarrow> string \<times> string \<Rightarrow> string \<times> string" where
  "sequential_status refresh_requested tf tc errs init =
     (if refresh_requested then
        (if errs \<noteq> [] then
           (''Refresh completed with errors. Fetched '' @ str tf @ '' clusters, used '' @ str tc
            @ '' cached clusters. Errors: '' @ join ''; '' errs, ''warning'')
         else
           (''Data refreshed successfully! Fetched '' @ str tf @ '' clusters from API.'', ''success''))
      else if tf > 0 then
        (''Data retrieval completed! Fetched '' @ str tf @ '' clusters from API (cache was missing).'',
         ''success'')
      else init)"

text \<open>
  The data loading of \<open>backup_page\<close> for a non-empty selection: the choice of the path,
  then one of the two paths.
\<close>

definition backup_page ::
  "env \<Rightarrow> ops_manager list \<Rightarrow> bool \<Rightarrow> nat list \<Rightarrow> world \<Rightarrow> (exn + aggregate) \<times> world" where
  "backup_page e matching_ops_managers refresh_requested completion w =
     (case use_concurrent ''backup'' refresh_requested matching_ops_managers w of
        Inl x \<Rightarrow> (Inl x, w)
      | Inr True \<Rightarrow>
          (case fetch_multiple_ops_managers_concurrent e matching_ops_managers ''backup'' 4
                  refresh_requested completion w of
             (r, w') \<Rightarrow> (Inr r, w'))
      | Inr False \<Rightarrow>
          (case sequential_loop e ''backup'' refresh_requested matching_ops_managers ([], 0, 0, []) w of
             (Inl x, w') \<Rightarrow> (Inl x, w')
           | (Inr (ad, tf, tc, errs), w') \<Rightarrow>
               (case sequential_status refresh_requested tf tc errs ([], []) of
                  (msg, ty) \<Rightarrow>
                    (Inr \<lparr>all_data = ad, status_message = msg, status_type = ty,
                          total_fetched = tf, total_cached = tc, errors = errs\<rparr>, w'))))"

text \<open>
  One iteration of the sequential loop of \<open>backup_storage_page\<close>, which calls the adapter
  itself instead of \<open>fetch_and_cache_data\<close>.
\<close>

fun backup_storage_step ::
  "env \<Rightarrow> bool \<Rightarrow> ops_manager \<Rightarrow> accumulator \<Rightarrow> world \<Rightarrow> (exn + accumulator) \<times> world" where
  "backup_storage_step e refresh_requested om (ad, tf, tc, errs) w =
     (let filename = get_cache_filename (url om) ''backup_storage''
      in case load_cache w filename of
           Inl x \<Rightarrow> (Inl x, w)
         | Inr cached_data \<Rightarrow>
             if refresh_requested \<or> \<not> truthy cached_data then
               (case (if refresh_requested \<and> truthy cached_data then clear_cache e filename w
                      else (Inr (), w)) of
                  (Inl x, w1) \<Rightarrow> (Inl x, w1)
                | (Inr u, w1) \<Rightarrow>
                    (let w2 = w1\<lparr>api_calls := api_calls w1 @ [url om]\<rparr>;
                         fresh_data = gather_backup_storage_for_credentials e
                                        (url om) (public_key om) (private_key om)
                     in if truthy fresh_data then
                          (case save_cache e (rows_of fresh_data) filename w2 of
                             (Inr u', w3) \<Rightarrow>
                               (Inr (ad @ rows_of fresh_data, tf + length (rows_of fresh_data), tc, errs), w3)
                           | (Inl cache_error, w3) \<Rightarrow>
                               (Inr (ad @ rows_of fresh_data, tf + length (rows_of fresh_data), tc, errs), w3))
                        else
                          (Inr (if truthy cached_data
                                then (ad @ rows_of cached_data, tf, tc + length (rows_of cached_data),
                                      errs @ [region om @ ''-'' @ environment om
                                              @ '': No backup storage data returned''])
                                else (ad, tf, tc,
                                      errs @ [region om @ ''-'' @ environment om
                                              @ '': No backup storage data returned''])), w2)))
             else
               (Inr (ad @ rows_of cached_data, tf, tc + length (rows_of cached_data), errs), w))"

section \<open>Sample inputs\<close>

text \<open>
  A source with the given base URL; surroundings in which every write and removal
  succeeds, the storage listings are empty and the backup and monitoring adapters answer
  as the given function says; a cache directory with no file, and one with a single file.
\<close>

definition src :: "string \<Rightarrow> ops_manager" where
  "src u = \<lparr>url = u, public_key = ''pk'', private_key = ''sk'', region = ''eu'', environment = ''prod''\<rparr>"

definition quiet_env :: "(string \<Rightarrow> adapter_result) \<Rightarrow> env" where
  "quiet_env answer =
     \<lparr>gather_data_for_credentials = (\<lambda>u pk sk. answer u),
      gather_monitoring_data_for_credentials = (\<lambda>u pk sk. answer u),
      get_snapshot_blockstore = (\<lambda>u pk sk. []),
      get_snapshot_s3config = (\<lambda>u pk sk. []),
      get_oplog_store = (\<lambda>u pk sk. []),
      get_oplog_s3config = (\<lambda>u pk sk. []),
      urlparse_hostname = (\<lambda>u. None),
      write_error = (\<lambda>f. None),
      remove_error = (\<lambda>f. None),
      now_isoformat = ''2024-01-01T00:00:00''\<rparr>"

definition empty_world :: world where
  "empty_world = \<lparr>files = (\<lambda>f. None), api_calls = []\<rparr>"

definition with_file :: "string \<Rightarrow> cache_file \<Rightarrow> world" where
  "with_file f c = \<lparr>files = (\<lambda>g. if g = f then Some c else None), api_calls = []\<rparr>"

text \<open>
  A cache directory in which each of the listed files has the given content, and an
  adapter that answers one record for the base URL \<open>a.b\<close> and two records for any other.
\<close>

definition with_files :: "string list \<Rightarrow> cache_file \<Rightarrow> world" where
  "with_files fs c = \<lparr>files = (\<lambda>g. if g \<in> set fs then Some c else None), api_calls = []\<rparr>"

definition two_answers :: "string \<Rightarrow> adapter_result" where
  "two_answers u = (if u = ''a.b'' then Returned (Some [[(''Project'', ''p'')]])
                    else Returned (Some [[(''Project'', ''q'')], [(''Project'', ''r'')]]))"

section \<open>Basic facts\<close>

lemmas model_defs =
  src_def quiet_env_def empty_world_def with_file_def get_cache_filename_def alnum_def
  load_cache_def save_cache_def clear_cache_def adapter_answer_def fetch_and_cache_data_def
  fetch_single_ops_manager_def fetch_single_body_def fetch_multiple_ops_managers_concurrent_def
  completion_status_def gather_backup_storage_for_credentials_def Let_def

lemmas more_defs = with_files_def two_answers_def missing_cache_count.simps use_concurrent_def
  backup_page_def sequential_status_def

lemma str_0: "str 0 = ''0''"
  by (simp add: str.simps)

lemma completion_status_type:
  "snd (completion_status rf tf tc n errs) =
     (if errs \<noteq> [] then (if tf > 0 \<or> tc > 0 then ''warning'' else ''error'') else ''success'')"
  by (simp add: completion_status_def)


text \<open>The accumulator after the pool has drained, in terms of the results of the tasks.\<close>

lemma collect_results_pool:
  "fst (collect_results e dt rf oms (ad, tf, tc, errs) w) =
     (ad @ concat (map data (pool_results e dt rf oms w)),
      tf + sum_list (map fetched (pool_results e dt rf oms w)),
      tc + sum_list (map cached (pool_results e dt rf oms w)),
      errs @ map text_of (filter truthy (map error (pool_results e dt rf oms w))))"
proof (induction oms arbitrary: ad tf tc errs w)
  case Nil
  show ?case by simp
next
  case (Cons om rest)
  obtain r w' where s: "fetch_single_ops_manager e dt rf om w = (r, w')"
    by (cases "fetch_single_ops_manager e dt rf om w")
  show ?case
    by (simp add: s Cons.IH)
qed

lemma concurrent_fields:
  "fst (fetch_multiple_ops_managers_concurrent e oms dt mw rf completion w) =
     (let rs = pool_results e dt rf (map (\<lambda>i. oms ! i) completion) w;
          tf = sum_list (map fetched rs); tc = sum_list (map cached rs);
          errs = map text_of (filter truthy (map error rs))
      in \<lparr>all_data = concat (map data rs),
          status_message = fst (completion_status rf tf tc (length oms) errs),
          status_type = snd (completion_status rf tf tc (length oms) errs),
          total_fetched = tf, total_cached = tc, errors = errs\<rparr>)"
proof -
  obtain acc w' where c:
    "collect_results e dt rf (map (\<lambda>i. oms ! i) completion) ([], 0, 0, []) w = (acc, w')"
    by (cases "collect_results e dt rf (map (\<lambda>i. oms ! i) completion) ([], 0, 0, []) w")
  have "acc = fst (collect_results e dt rf (map (\<lambda>i. oms ! i) completion) ([], 0, 0, []) w)"
    by (simp add: c)
  then have a: "acc = (concat (map data (pool_results e dt rf (map (\<lambda>i. oms ! i) completion) w)),
      sum_list (map fetched (pool_results e dt rf (map (\<lambda>i. oms ! i) completion) w)),
      sum_list (map cached (pool_results e dt rf (map (\<lambda>i. oms ! i) completion) w)),
      map text_of (filter truthy (map error (pool_results e dt rf (map (\<lambda>i. oms ! i) completion) w))))"
    by (simp add: collect_results_pool)
  show ?thesis
    by (simp add: fetch_multiple_ops_managers_concurrent_def c a Let_def split: prod.splits)
qed

lemma concurrent_status:
  "status_message (fst (fetch_multiple_ops_managers_concurrent e oms dt mw rf completion w)) =
     fst (completion_status rf
            (total_fetched (fst (fetch_multiple_ops_managers_concurrent e oms dt mw rf completion w)))
            (total_cached (fst (fetch_multiple_ops_managers_concurrent e oms dt mw rf completion w)))
            (length oms)
            (errors (fst (fetch_multiple_ops_managers_concurrent e oms dt mw rf completion w))))"
  "status_type (fst (fetch_multiple_ops_managers_concurrent e oms dt mw rf completion w)) =
     snd (completion_status rf
            (total_fetched (fst (fetch_multiple_ops_managers_concurrent e oms dt mw rf completion w)))
            (total_cached (fst (fetch_multiple_ops_managers_concurrent e oms dt mw rf completion w)))
            (length oms)
            (errors (fst (fetch_multiple_ops_managers_concurrent e oms dt mw rf completion w))))"
  by (simp_all add: fetch_multiple_ops_managers_concurrent_def split: prod.splits)


text \<open>What \<open>fetch_and_cache_data\<close> returns does not depend on the cache directory.\<close>

lemma fetch_and_cache_data_result:
  "fst (fetch_and_cache_data e om dt w) =
     (case adapter_answer e dt (url om) (public_key om) (private_key om) of
        Returned (Some d) \<Rightarrow> (d, None)
      | Returned None \<Rightarrow> ([], Some (''No '' @ dt @ '' data returned from API for '' @ url om))
      | Raised x \<Rightarrow> ([], Some (''Failed to fetch '' @ dt @ '' data from '' @ url om @ '': '' @ x)))"
  by (simp add: fetch_and_cache_data_def Let_def save_cache_def
      split: adapter_result.splits option.splits prod.splits sum.splits write_failure.splits)

lemma fetch_and_cache_data_world:
  "fst (fetch_and_cache_data e om dt w1) = fst (fetch_and_cache_data e om dt w)"
  by (simp add: fetch_and_cache_data_result)

lemma adapter_answer_write_error [simp]:
  "adapter_answer (e\<lparr>write_error := we\<rparr>) dt u pk sk = adapter_answer e dt u pk sk"
  by (simp add: adapter_answer_def gather_backup_storage_for_credentials_def)

lemma clear_cache_write_error [simp]:
  "clear_cache (e\<lparr>write_error := we\<rparr>) f w = clear_cache e f w"
  by (simp add: clear_cache_def)

lemma fetch_and_cache_data_write_error:
  "fst (fetch_and_cache_data (e\<lparr>write_error := we\<rparr>) om dt w) = fst (fetch_and_cache_data e om dt w)"
  by (simp add: fetch_and_cache_data_result)

text \<open>The result of the fetch policy for one source, path by path.\<close>

lemma fetch_single_result:
  "fst (fetch_single_ops_manager e dt rf om w) =
     (case load_cache w (get_cache_filename (url om) dt) of
        Inl x \<Rightarrow> \<lparr>data = [], fetched = 0, cached = 0,
                  error = Some (url om @ '': Unexpected error: '' @ x)\<rparr>
      | Inr c \<Rightarrow>
          if rf \<or> \<not> truthy c then
            (case (if rf \<and> truthy c then fst (clear_cache e (get_cache_filename (url om) dt) w)
                   else Inr ()) of
               Inl x \<Rightarrow> \<lparr>data = [], fetched = 0, cached = 0,
                         error = Some (url om @ '': Unexpected error: '' @ x)\<rparr>
             | Inr u \<Rightarrow>
                 (if truthy (snd (fst (fetch_and_cache_data e om dt w))) then
                    (if truthy c then
                       \<lparr>data = rows_of c, fetched = 0, cached = length (rows_of c),
                        error = Some (region om @ ''-'' @ environment om @ '': ''
                                      @ text_of (snd (fst (fetch_and_cache_data e om dt w)))
                                      @ '' (using cache)'')\<rparr>
                     else
                       \<lparr>data = [], fetched = 0, cached = 0,
                        error = Some (region om @ ''-'' @ environment om @ '': ''
                                      @ text_of (snd (fst (fetch_and_cache_data e om dt w))))\<rparr>)
                  else
                    \<lparr>data = fst (fst (fetch_and_cache_data e om dt w)),
                     fetched = length (fst (fst (fetch_and_cache_data e om dt w))),
                     cached = 0, error = None\<rparr>))
          else \<lparr>data = rows_of c, fetched = 0, cached = length (rows_of c), error = None\<rparr>)"
proof (cases "load_cache w (get_cache_filename (url om) dt)")
  case (Inl x)
  then show ?thesis by (simp add: fetch_single_ops_manager_def fetch_single_body_def)
next
  case (Inr c)
  show ?thesis
  proof (cases "rf \<or> \<not> truthy c")
    case False
    with Inr show ?thesis by (simp add: fetch_single_ops_manager_def fetch_single_body_def)
  next
    case True
    show ?thesis
    proof (cases "rf \<and> truthy c")
      case clear: True
      obtain s w1 where cl: "clear_cache e (get_cache_filename (url om) dt) w = (s, w1)"
        by (cases "clear_cache e (get_cache_filename (url om) dt) w")
      obtain fresh msg w2 where fd: "fetch_and_cache_data e om dt w1 = ((fresh, msg), w2)"
        by (metis prod.exhaust)
      have fm: "fst (fetch_and_cache_data e om dt w) = (fresh, msg)"
        using fd fetch_and_cache_data_world [of e om dt w1 w] by simp
      show ?thesis
        by (cases s) (simp_all add: fetch_single_ops_manager_def fetch_single_body_def Let_def Inr clear cl fd fm)
    next
      case keep: False
      obtain fresh msg w2 where fd: "fetch_and_cache_data e om dt w = ((fresh, msg), w2)"
        by (metis prod.exhaust)
      from keep True have "\<not> truthy c" by blast
      then show ?thesis
        by (simp add: fetch_single_ops_manager_def fetch_single_body_def Let_def Inr fd)
    qed
  qed
qed

section \<open>Containment of unexpected exceptions\<close>






section \<open>Cache write failures\<close>

text \<open>
  Claim C9. When the adapter returns data and \<open>save_cache\<close> raises, \<open>fetch_and_cache_data\<close>
  returns what it returns when the save succeeds: the data and no error. With \<open>we\<close> any
  behaviour of the file writes, failing or not, neither the returned pair nor the result of
  the fetch policy for the source depends on it.
\<close>

theorem cache_write_failure_unobservable:
  assumes "adapter_answer e dt (url om) (public_key om) (private_key om) = Returned (Some d)"
  shows "fst (fetch_and_cache_data (e\<lparr>write_error := we\<rparr>) om dt w) = (d, None) \<and>
         fst (fetch_single_ops_manager (e\<lparr>write_error := we\<rparr>) dt rf om w) =
         fst (fetch_single_ops_manager e dt rf om w)"
proof
  show "fst (fetch_and_cache_data (e\<lparr>write_error := we\<rparr>) om dt w) = (d, None)"
    using assms by (simp add: fetch_and_cache_data_result)
  show "fst (fetch_single_ops_manager (e\<lparr>write_error := we\<rparr>) dt rf om w) =
        fst (fetch_single_ops_manager e dt rf om w)"
    unfolding fetch_single_result fetch_and_cache_data_write_error clear_cache_write_error ..
qed

theorem cache_write_failure_unobservable_witness:
  "adapter_answer (quiet_env (\<lambda>u. Returned (Some [[(''Project'', ''p'')]]))) ''backup''
       (url (src ''a'')) (public_key (src ''a'')) (private_key (src ''a'')) = Returned (Some [[(''Project'', ''p'')]]) \<and>
   fst (fetch_and_cache_data ((quiet_env (\<lambda>u. Returned (Some [[(''Project'', ''p'')]])))\<lparr>write_error := (\<lambda>f. Some (Dump_failed ''disk full'' ''Expecting value''))\<rparr>)
         (src ''a'') ''backup'' empty_world) = ([[(''Project'', ''p'')]], None)"
proof -
  have h: "adapter_answer (quiet_env (\<lambda>u. Returned (Some [[(''Project'', ''p'')]]))) ''backup''
       (url (src ''a'')) (public_key (src ''a'')) (private_key (src ''a'')) = Returned (Some [[(''Project'', ''p'')]])"
    by (simp add: adapter_answer_def quiet_env_def)
  show ?thesis
    using h cache_write_failure_unobservable [OF h, of "\<lambda>f. Some (Dump_failed ''disk full'' ''Expecting value'')" empty_world] by simp
qed

section \<open>The status of the concurrent aggregation\<close>

text \<open>
  Claim C10. In every result of the concurrent aggregation the status type is
  \<open>success\<close> exactly when the error list is empty, \<open>warning\<close> exactly when the error list is
  not empty and records were fetched or taken from cache, \<open>error\<close> exactly when the error
  list is not empty and no record was fetched or taken from cache; it is never \<open>info\<close>.
\<close>

theorem status_type_characterised:
  "(status_type (fst (fetch_multiple_ops_managers_concurrent e oms dt mw rf completion w)) = ''success''
      \<longleftrightarrow> errors (fst (fetch_multiple_ops_managers_concurrent e oms dt mw rf completion w)) = []) \<and>
   (status_type (fst (fetch_multiple_ops_managers_concurrent e oms dt mw rf completion w)) = ''warning''
      \<longleftrightarrow> errors (fst (fetch_multiple_ops_managers_concurrent e oms dt mw rf completion w)) \<noteq> []
          \<and> total_fetched (fst (fetch_multiple_ops_managers_concurrent e oms dt mw rf completion w))
            + total_cached (fst (fetch_multiple_ops_managers_concurrent e oms dt mw rf completion w)) > 0) \<and>
   (status_type (fst (fetch_multiple_ops_managers_concurrent e oms dt mw rf completion w)) = ''error''
      \<longleftrightarrow> errors (fst (fetch_multiple_ops_managers_concurrent e oms dt mw rf completion w)) \<noteq> []
          \<and> total_fetched (fst (fetch_multiple_ops_managers_concurrent e oms dt mw rf completion w))
            + total_cached (fst (fetch_multiple_ops_managers_concurrent e oms dt mw rf completion w)) = 0) \<and>
   status_type (fst (fetch_multiple_ops_managers_concurrent e oms dt mw rf completion w)) \<noteq> ''info''"
proof -
  define r where "r = fst (fetch_multiple_ops_managers_concurrent e oms dt mw rf completion w)"
  have ty: "status_type r =
      (if errors r \<noteq> [] then (if total_fetched r > 0 \<or> total_cached r > 0 then ''warning'' else ''error'')
       else ''success'')"
    unfolding r_def concurrent_status(2) completion_status_type ..
  have "(status_type r = ''success'' \<longleftrightarrow> errors r = []) \<and>
        (status_type r = ''warning'' \<longleftrightarrow> errors r \<noteq> [] \<and> total_fetched r + total_cached r > 0) \<and>
        (status_type r = ''error'' \<longleftrightarrow> errors r \<noteq> [] \<and> total_fetched r + total_cached r = 0) \<and>
        status_type r \<noteq> ''info''"
    unfolding ty by auto
  then show ?thesis unfolding r_def .
qed

section \<open>Cache hits\<close>

text \<open>
  Without a forced refresh a cache that holds at least one record is returned as it is:
  the world is unchanged, so no adapter has been called.
\<close>

lemma nonempty_cache_hit:
  assumes "load_cache w (get_cache_filename (url om) dt) = Inr (Some c)" and "c \<noteq> []"
  shows "fetch_single_ops_manager e dt False om w =
           (\<lparr>data = c, fetched = 0, cached = length c, error = None\<rparr>, w)"
  using assms by (simp add: fetch_single_ops_manager_def fetch_single_body_def)

text \<open>
  Claim C1 says that without a forced refresh a cache entry that is present is returned
  without any adapter call, also when its record list is empty. The policy tests
  \<open>not cached_data\<close>, which holds for the empty list as it does for \<open>None\<close>. At a cache file
  whose envelope holds the empty list (what \<open>save_cache\<close> writes after an adapter returned
  \<open>[]\<close>) the policy calls the adapter and returns the fresh record with
  \<open>fetched = 1\<close>, \<open>cached = 0\<close>.
\<close>

theorem empty_cache_is_refetched:
  "load_cache (with_file ''cache/backup/cached_a.json'' (Envelope ''2024-01-01T00:00:00'' []))
     (get_cache_filename (url (src ''a'')) ''backup'') = Inr (Some []) \<and>
   fst (fetch_single_ops_manager (quiet_env (\<lambda>u. Returned (Some [[(''Project'', ''p'')]]))) ''backup'' False (src ''a'')
         (with_file ''cache/backup/cached_a.json'' (Envelope ''2024-01-01T00:00:00'' []))) =
     \<lparr>data = [[(''Project'', ''p'')]], fetched = 1, cached = 0, error = None\<rparr> \<and>
   api_calls (snd (fetch_single_ops_manager (quiet_env (\<lambda>u. Returned (Some [[(''Project'', ''p'')]]))) ''backup'' False (src ''a'')
         (with_file ''cache/backup/cached_a.json'' (Envelope ''2024-01-01T00:00:00'' [])))) = [''a'']"
  by (simp add: model_defs)

section \<open>Choice of the path\<close>

text \<open>
  The count of missing caches is the number of sources whose cache is absent or holds
  the empty list.
\<close>

lemma missing_cache_count_value:
  assumes "\<forall>om \<in> set oms. \<forall>x. files w (get_cache_filename (url om) ct) \<noteq> Some (Unparseable x)"
  shows "missing_cache_count ct oms w =
           Inr (length (filter (\<lambda>om. \<forall>c. load_cache w (get_cache_filename (url om) ct) \<noteq> Inr (Some c) \<or> c = []) oms))"
  using assms
proof (induction oms)
  case Nil
  show ?case by simp
next
  case (Cons om rest)
  then show ?case
    by (cases "files w (get_cache_filename (url om) ct)")
       (auto simp: load_cache_def split: cache_file.splits)
qed

text \<open>
  Claim C4 says that the concurrent path is taken exactly when a refresh is forced or at
  least two sources have no cache entry. The count that \<open>backup_page\<close> compares with 2
  is incremented under \<open>not cached_data\<close>: with two sources whose cache files exist and
  hold the empty list, and no forced refresh, the count is 2 and the concurrent path is
  taken although no source lacks a cache entry.
\<close>

theorem empty_caches_count_as_missing:
  "files (with_files [''cache/backup/cached_a.json'', ''cache/backup/cached_b.json'']
            (Envelope ''2024-01-01T00:00:00'' [])) (get_cache_filename (url (src ''a'')) ''backup'')
     = Some (Envelope ''2024-01-01T00:00:00'' []) \<and>
   files (with_files [''cache/backup/cached_a.json'', ''cache/backup/cached_b.json'']
            (Envelope ''2024-01-01T00:00:00'' [])) (get_cache_filename (url (src ''b'')) ''backup'')
     = Some (Envelope ''2024-01-01T00:00:00'' []) \<and>
   missing_cache_count ''backup'' [src ''a'', src ''b'']
     (with_files [''cache/backup/cached_a.json'', ''cache/backup/cached_b.json'']
            (Envelope ''2024-01-01T00:00:00'' [])) = Inr 2 \<and>
   use_concurrent ''backup'' False [src ''a'', src ''b'']
     (with_files [''cache/backup/cached_a.json'', ''cache/backup/cached_b.json'']
            (Envelope ''2024-01-01T00:00:00'' [])) = Inr True"
  by (simp add: model_defs more_defs)

section \<open>Empty adapter results\<close>

text \<open>
  On every path that calls the adapter, a list returned by the adapter is the result of
  the fetch policy, whatever its length.
\<close>

lemma adapter_success_outcome:
  assumes "adapter_answer e dt (url om) (public_key om) (private_key om) = Returned (Some d)"
    and "load_cache w (get_cache_filename (url om) dt) = Inr c"
    and "rf \<or> \<not> truthy c"
    and "rf \<and> truthy c \<longrightarrow> fst (clear_cache e (get_cache_filename (url om) dt) w) = Inr ()"
  shows "fst (fetch_single_ops_manager e dt rf om w) =
           \<lparr>data = d, fetched = length d, cached = 0, error = None\<rparr>"
  using assms by (auto simp: fetch_single_result fetch_and_cache_data_result)

text \<open>
  Claim C2. For every category, when the adapter returns the empty list,
  \<open>fetch_and_cache_data\<close> returns the empty list and no error, and the fetch policy, on
  every path on which it calls the adapter, returns no records, both counts zero and no
  error, as it does for a list with records (\<open>adapter_success_outcome\<close>). This holds also
  when the cache held records before a forced refresh: the fallback to the cache is not
  taken.
\<close>

theorem empty_adapter_result_is_success:
  assumes "adapter_answer e dt (url om) (public_key om) (private_key om) = Returned (Some [])"
  shows "fst (fetch_and_cache_data e om dt w) = ([], None) \<and>
         (\<forall>c. load_cache w (get_cache_filename (url om) dt) = Inr c \<and> (rf \<or> \<not> truthy c) \<and>
              (rf \<and> truthy c \<longrightarrow> fst (clear_cache e (get_cache_filename (url om) dt) w) = Inr ()) \<longrightarrow>
              fst (fetch_single_ops_manager e dt rf om w) =
                \<lparr>data = [], fetched = 0, cached = 0, error = None\<rparr>)"
proof (intro conjI allI impI)
  show "fst (fetch_and_cache_data e om dt w) = ([], None)"
    using assms by (simp add: fetch_and_cache_data_result)
next
  fix c
  assume h: "load_cache w (get_cache_filename (url om) dt) = Inr c \<and> (rf \<or> \<not> truthy c) \<and>
              (rf \<and> truthy c \<longrightarrow> fst (clear_cache e (get_cache_filename (url om) dt) w) = Inr ())"
  show "fst (fetch_single_ops_manager e dt rf om w) = \<lparr>data = [], fetched = 0, cached = 0, error = None\<rparr>"
    using adapter_success_outcome [OF assms, of w c rf] h by simp
qed

theorem empty_adapter_result_is_success_witness:
  "adapter_answer (quiet_env (\<lambda>u. Returned (Some []))) ''backup''
       (url (src ''a'')) (public_key (src ''a'')) (private_key (src ''a'')) = Returned (Some []) \<and>
   load_cache (with_file ''cache/backup/cached_a.json'' (Legacy [[(''Project'', ''p'')]]))
     (get_cache_filename (url (src ''a'')) ''backup'') = Inr (Some [[(''Project'', ''p'')]]) \<and>
   fst (fetch_and_cache_data (quiet_env (\<lambda>u. Returned (Some []))) (src ''a'') ''backup''
         (with_file ''cache/backup/cached_a.json'' (Legacy [[(''Project'', ''p'')]]))) = ([], None) \<and>
   fst (fetch_single_ops_manager (quiet_env (\<lambda>u. Returned (Some []))) ''backup'' True (src ''a'')
         (with_file ''cache/backup/cached_a.json'' (Legacy [[(''Project'', ''p'')]]))) =
     \<lparr>data = [], fetched = 0, cached = 0, error = None\<rparr>"
proof -
  have a: "adapter_answer (quiet_env (\<lambda>u. Returned (Some []))) ''backup''
       (url (src ''a'')) (public_key (src ''a'')) (private_key (src ''a'')) = Returned (Some [])"
    by (simp add: adapter_answer_def quiet_env_def)
  have l: "load_cache (with_file ''cache/backup/cached_a.json'' (Legacy [[(''Project'', ''p'')]]))
     (get_cache_filename (url (src ''a'')) ''backup'') = Inr (Some [[(''Project'', ''p'')]])"
    by (simp add: model_defs)
  have c: "fst (clear_cache (quiet_env (\<lambda>u. Returned (Some []))) (get_cache_filename (url (src ''a'')) ''backup'')
            (with_file ''cache/backup/cached_a.json'' (Legacy [[(''Project'', ''p'')]]))) = Inr ()"
    by (simp add: model_defs)
  show ?thesis
    using a l c empty_adapter_result_is_success [OF a,
        of "with_file ''cache/backup/cached_a.json'' (Legacy [[(''Project'', ''p'')]])" True]
    by simp
qed

text \<open>
  The backup-storage adapter never returns the empty list: when its four listings are
  empty it returns \<open>None\<close>, which the fetch policy and the sequential loop of
  \<open>backup_storage_page\<close> report as a failure.
\<close>

lemma gather_backup_storage_never_empty:
  "gather_backup_storage_for_credentials e u pk sk \<noteq> Some []"
  by (simp add: gather_backup_storage_for_credentials_def Let_def)

lemma empty_storage_listings_give_none:
  "get_snapshot_blockstore (quiet_env (\<lambda>u. Returned None)) ''a'' ''pk'' ''sk''
     @ get_snapshot_s3config (quiet_env (\<lambda>u. Returned None)) ''a'' ''pk'' ''sk''
     @ get_oplog_store (quiet_env (\<lambda>u. Returned None)) ''a'' ''pk'' ''sk''
     @ get_oplog_s3config (quiet_env (\<lambda>u. Returned None)) ''a'' ''pk'' ''sk'' = [] \<and>
   gather_backup_storage_for_credentials (quiet_env (\<lambda>u. Returned None)) ''a'' ''pk'' ''sk'' = None \<and>
   fst (fetch_single_ops_manager (quiet_env (\<lambda>u. Returned None)) ''backup_storage'' False (src ''a'') empty_world) =
     \<lparr>data = [], fetched = 0, cached = 0,
      error = Some ''eu-prod: No backup_storage data returned from API for a''\<rparr> \<and>
   fst (backup_storage_step (quiet_env (\<lambda>u. Returned None)) False (src ''a'') ([], 0, 0, []) empty_world) =
     Inr ([], 0, 0, [''eu-prod: No backup storage data returned''])"
  by (simp add: model_defs more_defs)

section \<open>Fallback to the cache\<close>

text \<open>
  When the adapter is called and fails (it returns \<open>None\<close> or raises) while the cache
  file held a list, the result of the fetch policy holds exactly that list,
  \<open>fetched = 0\<close>, \<open>cached\<close> its length, and an error
  \<open><region>-<environment>: <message>\<close> with a non-empty message. The tag
  \<open>(using cache)\<close> follows the message exactly when the list is not empty.
\<close>

lemma fallback_for_every_snapshot:
  assumes "load_cache w (get_cache_filename (url om) dt) = Inr (Some c)"
    and "rf \<or> c = []"
    and "rf \<and> c \<noteq> [] \<longrightarrow> fst (clear_cache e (get_cache_filename (url om) dt) w) = Inr ()"
    and "\<forall>d. adapter_answer e dt (url om) (public_key om) (private_key om) \<noteq> Returned (Some d)"
  shows "\<exists>msg. msg \<noteq> [] \<and>
           fst (fetch_single_ops_manager e dt rf om w) =
             \<lparr>data = c, fetched = 0, cached = length c,
              error = Some (region om @ ''-'' @ environment om @ '': '' @ msg
                            @ (if c \<noteq> [] then '' (using cache)'' else []))\<rparr>"
proof (cases "adapter_answer e dt (url om) (public_key om) (private_key om)")
  case (Returned r)
  with assms(4) have r: "r = None" by (cases r) simp_all
  show ?thesis
    using assms(1-3)
    by (intro exI [of _ "''No '' @ dt @ '' data returned from API for '' @ url om"])
       (auto simp: fetch_single_result fetch_and_cache_data_result Returned r)
next
  case (Raised x)
  show ?thesis
    using assms(1-3)
    by (intro exI [of _ "''Failed to fetch '' @ dt @ '' data from '' @ url om @ '': '' @ x"])
       (auto simp: fetch_single_result fetch_and_cache_data_result Raised)
qed


section \<open>The status of an aggregation without records and errors\<close>

lemma backup_page_concurrent:
  assumes "use_concurrent ''backup'' rf oms w = Inr True"
  shows "fst (backup_page e oms rf completion w) =
           Inr (fst (fetch_multiple_ops_managers_concurrent e oms ''backup'' 4 rf completion w))"
  using assms by (simp add: backup_page_def split: prod.splits)

lemma backup_page_sequential:
  assumes "use_concurrent ''backup'' rf oms w = Inr False"
    and "fst (backup_page e oms rf completion w) = Inr R"
  shows "status_message R = fst (sequential_status rf (total_fetched R) (total_cached R) (errors R) ([], []))"
    and "status_type R = snd (sequential_status rf (total_fetched R) (total_cached R) (errors R) ([], []))"
  using assms by (auto simp: backup_page_def split: prod.splits sum.splits)

text \<open>
  Claim C8, as the two paths have it. The status type of the concurrent aggregation is
  determined by whether the error list is empty and whether any record was fetched or
  taken from cache. For an aggregation of \<open>backup_page\<close> without forced refresh, without
  records and with an empty error list, the status message and type are empty when the
  sequential path ran; when the concurrent path ran, the message is
  \<open>Data loaded successfully! Fetched 0 records from API (cache was missing) across N Ops
  Managers.\<close> and the type is \<open>success\<close>.
\<close>

theorem status_of_empty_aggregation:
  assumes "fst (backup_page e oms False completion w) = Inr R"
    and "total_fetched R + total_cached R = 0" and "errors R = []"
  shows "(use_concurrent ''backup'' False oms w = Inr False \<longrightarrow>
            status_message R = [] \<and> status_type R = []) \<and>
         (use_concurrent ''backup'' False oms w = Inr True \<longrightarrow>
            status_message R = ''Data loaded successfully! Fetched 0 records from API (cache was missing) across ''
                               @ str (length oms) @ '' Ops Managers.'' \<and>
            status_type R = ''success'') \<and>
         (\<forall>rf tf tc n errs rf' tf' tc' n' errs'.
            (errs = []) = (errs' = []) \<and> (0 < tf + tc) = (0 < tf' + tc') \<longrightarrow>
            snd (completion_status rf tf tc n errs) = snd (completion_status rf' tf' tc' n' (errs' :: string list)))"
proof (intro conjI impI allI)
  assume s: "use_concurrent ''backup'' False oms w = Inr False"
  from assms(2) have z: "total_fetched R = 0" by simp
  show "status_message R = []"
    unfolding backup_page_sequential(1) [OF s assms(1)] z by (simp add: sequential_status_def)
  show "status_type R = []"
    unfolding backup_page_sequential(2) [OF s assms(1)] z by (simp add: sequential_status_def)
next
  assume c: "use_concurrent ''backup'' False oms w = Inr True"
  have R: "R = fst (fetch_multiple_ops_managers_concurrent e oms ''backup'' 4 False completion w)"
    using assms(1) backup_page_concurrent [OF c, of e completion] by simp
  from assms(2) have z: "total_fetched R = 0" "total_cached R = 0" by simp_all
  have m: "status_message R = fst (completion_status False (total_fetched R) (total_cached R) (length oms) (errors R))"
    unfolding R by (rule concurrent_status(1))
  have t: "status_type R = snd (completion_status False (total_fetched R) (total_cached R) (length oms) (errors R))"
    unfolding R by (rule concurrent_status(2))
  show "status_message R = ''Data loaded successfully! Fetched 0 records from API (cache was missing) across ''
                               @ str (length oms) @ '' Ops Managers.''"
    unfolding m z assms(3) by (simp add: completion_status_def str_0)
  show "status_type R = ''success''"
    unfolding t z assms(3) by (simp add: completion_status_def)
next
  fix rf rf' :: bool and tf tc n tf' tc' n' :: nat and errs errs' :: "string list"
  assume "(errs = []) = (errs' = []) \<and> (0 < tf + tc) = (0 < tf' + tc')"
  then show "snd (completion_status rf tf tc n errs) = snd (completion_status rf' tf' tc' n' errs')"
    unfolding completion_status_type by auto
qed

text \<open>
  Two sources without cache whose adapters return the empty list: the concurrent path
  runs, nothing is fetched, nothing fails, and the message is not empty.
\<close>

theorem nothing_to_report_counterexample:
  "fst (backup_page (quiet_env (\<lambda>u. Returned (Some []))) [src ''a'', src ''b''] False [0, 1] empty_world) =
     Inr \<lparr>all_data = [],
          status_message = ''Data loaded successfully! Fetched 0 records from API (cache was missing) across 2 Ops Managers.'',
          status_type = ''success'', total_fetched = 0, total_cached = 0, errors = []\<rparr>"
  by (simp add: model_defs more_defs str.simps)

theorem status_of_empty_aggregation_witness:
  "fst (backup_page (quiet_env (\<lambda>u. Returned (Some []))) [src ''a''] False [0] empty_world) =
     Inr \<lparr>all_data = [], status_message = [], status_type = [],
          total_fetched = 0, total_cached = 0, errors = []\<rparr> \<and>
   use_concurrent ''backup'' False [src ''a''] empty_world = Inr False"
proof -
  have u: "use_concurrent ''backup'' False [src ''a''] empty_world = Inr False"
    by (simp add: model_defs more_defs)
  obtain ad msg ty w' where r: "backup_page (quiet_env (\<lambda>u. Returned (Some []))) [src ''a''] False [0] empty_world =
     (Inr \<lparr>all_data = ad, status_message = msg, status_type = ty,
          total_fetched = 0, total_cached = 0, errors = []\<rparr>, w')"
    by (simp add: model_defs more_defs)
  have "msg = [] \<and> ty = []"
    using status_of_empty_aggregation [of "quiet_env (\<lambda>u. Returned (Some []))" "[src ''a'']" "[0]" empty_world
      "\<lparr>all_data = ad, status_message = msg, status_type = ty, total_fetched = 0, total_cached = 0, errors = []\<rparr>"]
      r u by simp
  moreover have "ad = []"
    using r by (simp add: model_defs more_defs)
  ultimately show ?thesis using r u by simp
qed

section \<open>Concurrent and sequential counts\<close>

text \<open>
  The result of the fetch policy for a source depends on the world through the cache file
  of that source only, and the policy changes no other cache file.
\<close>

lemma load_cache_local:
  "files w1 f = files w2 f \<Longrightarrow> load_cache w1 f = load_cache w2 f"
  by (simp add: load_cache_def)

lemma clear_cache_local:
  "files w1 f = files w2 f \<Longrightarrow> fst (clear_cache e f w1) = fst (clear_cache e f w2)"
  by (simp add: clear_cache_def split: option.splits)

lemma fetch_single_local:
  assumes "files w1 (get_cache_filename (url om) dt) = files w2 (get_cache_filename (url om) dt)"
  shows "fst (fetch_single_ops_manager e dt rf om w1) = fst (fetch_single_ops_manager e dt rf om w2)"
  unfolding fetch_single_result load_cache_local [OF assms] clear_cache_local [OF assms]
    fetch_and_cache_data_world [of e om dt w1 w2] ..

lemma save_cache_frame:
  "g \<noteq> f \<Longrightarrow> files (snd (save_cache e d f w)) g = files w g"
  by (simp add: save_cache_def split: option.splits write_failure.splits)

lemma clear_cache_frame:
  "g \<noteq> f \<Longrightarrow> files (snd (clear_cache e f w)) g = files w g"
  by (simp add: clear_cache_def split: option.splits)

lemma fetch_and_cache_data_frame:
  "g \<noteq> get_cache_filename (url om) dt \<Longrightarrow> files (snd (fetch_and_cache_data e om dt w)) g = files w g"
  by (simp add: fetch_and_cache_data_def Let_def save_cache_def
      split: adapter_result.splits option.splits prod.splits sum.splits write_failure.splits)

lemma fetch_single_frame:
  assumes "g \<noteq> get_cache_filename (url om) dt"
  shows "files (snd (fetch_single_ops_manager e dt rf om w)) g = files w g"
proof (cases "load_cache w (get_cache_filename (url om) dt)")
  case (Inl x)
  then show ?thesis by (simp add: fetch_single_ops_manager_def fetch_single_body_def)
next
  case (Inr c)
  show ?thesis
  proof (cases "rf \<or> \<not> truthy c")
    case False
    with Inr show ?thesis by (simp add: fetch_single_ops_manager_def fetch_single_body_def)
  next
    case True
    obtain s w1 where cl:
      "(if rf \<and> truthy c then clear_cache e (get_cache_filename (url om) dt) w else (Inr (), w)) = (s, w1)"
      by (cases "if rf \<and> truthy c then clear_cache e (get_cache_filename (url om) dt) w else (Inr (), w)")
    have w1: "files w1 g = files w g"
      using cl clear_cache_frame [OF assms, of e w] by (auto split: if_splits)
    obtain fresh msg w2 where fd: "fetch_and_cache_data e om dt w1 = ((fresh, msg), w2)"
      by (metis prod.exhaust)
    have w2: "files w2 g = files w1 g"
      using fetch_and_cache_data_frame [OF assms, of e w1] fd by simp
    show ?thesis
      by (cases s) (simp_all add: fetch_single_ops_manager_def fetch_single_body_def Let_def Inr True cl fd w1 w2)
  qed
qed

text \<open>With pairwise distinct cache files every task sees its file as it was at the start.\<close>

lemma pool_results_independent:
  assumes "distinct (map (\<lambda>om. get_cache_filename (url om) dt) xs)"
    and "\<forall>om \<in> set xs. files w (get_cache_filename (url om) dt) = files w0 (get_cache_filename (url om) dt)"
  shows "pool_results e dt rf xs w = map (\<lambda>om. fst (fetch_single_ops_manager e dt rf om w0)) xs"
  using assms
proof (induction xs arbitrary: w)
  case Nil
  show ?case by simp
next
  case (Cons om rest)
  obtain r w' where s: "fetch_single_ops_manager e dt rf om w = (r, w')"
    by (cases "fetch_single_ops_manager e dt rf om w")
  have r: "r = fst (fetch_single_ops_manager e dt rf om w0)"
    using s fetch_single_local [of w om dt w0 e rf] Cons.prems(2) by simp
  have "\<forall>x \<in> set rest. files w' (get_cache_filename (url x) dt) = files w0 (get_cache_filename (url x) dt)"
  proof
    fix x assume x: "x \<in> set rest"
    have "(\<lambda>om. get_cache_filename (url om) dt) x \<in> (\<lambda>om. get_cache_filename (url om) dt) ` set rest"
      using x by (rule imageI)
    then have "get_cache_filename (url x) dt \<in> set (map (\<lambda>om. get_cache_filename (url om) dt) rest)"
      by simp
    moreover have "get_cache_filename (url om) dt \<notin> set (map (\<lambda>om. get_cache_filename (url om) dt) rest)"
      using Cons.prems(1) by simp
    ultimately have "get_cache_filename (url x) dt \<noteq> get_cache_filename (url om) dt"
      by metis
    then have "files w' (get_cache_filename (url x) dt) = files w (get_cache_filename (url x) dt)"
      using fetch_single_frame [of _ om dt e rf w] s by simp
    with Cons.prems(2) x show "files w' (get_cache_filename (url x) dt) = files w0 (get_cache_filename (url x) dt)"
      by simp
  qed
  with Cons.prems(1) have "pool_results e dt rf rest w' = map (\<lambda>om. fst (fetch_single_ops_manager e dt rf om w0)) rest"
    by (intro Cons.IH) simp_all
  with s r show ?case by simp
qed

text \<open>One iteration of the sequential loop in terms of the fetch policy.\<close>

lemma sequential_step:
  assumes rd: "\<forall>x. files w (get_cache_filename (url om) dt) \<noteq> Some (Unparseable x)"
    and rm: "rf \<longrightarrow> remove_error e (get_cache_filename (url om) dt) = None"
  shows "\<exists>errs'. sequential_loop e dt rf (om # rest) (ad, tf, tc, errs) w =
          sequential_loop e dt rf rest
            (ad @ data (fst (fetch_single_ops_manager e dt rf om w)),
             tf + fetched (fst (fetch_single_ops_manager e dt rf om w)),
             tc + cached (fst (fetch_single_ops_manager e dt rf om w)), errs')
            (snd (fetch_single_ops_manager e dt rf om w))"
proof -
  have "\<exists>c. load_cache w (get_cache_filename (url om) dt) = Inr c"
  proof (cases "files w (get_cache_filename (url om) dt)")
    case None
    then show ?thesis by (simp add: load_cache_def)
  next
    case (Some cf)
    with rd show ?thesis by (cases cf) (simp_all add: load_cache_def)
  qed
  then obtain c where ld: "load_cache w (get_cache_filename (url om) dt) = Inr c" ..
  show ?thesis
  proof (cases "rf \<or> \<not> truthy c")
    case False
    then show ?thesis
      by (simp add: fetch_single_ops_manager_def fetch_single_body_def ld) (rule exI, rule refl)
  next
    case True
    obtain s w1 where cl:
      "(if rf \<and> truthy c then clear_cache e (get_cache_filename (url om) dt) w else (Inr (), w)) = (s, w1)"
      by (cases "if rf \<and> truthy c then clear_cache e (get_cache_filename (url om) dt) w else (Inr (), w)")
    have s: "s = Inr ()"
      using cl rm by (auto simp: clear_cache_def split: if_splits option.splits)
    obtain fresh msg w2 where fd: "fetch_and_cache_data e om dt w1 = ((fresh, msg), w2)"
      by (metis prod.exhaust)
    show ?thesis
      using True
      by (simp add: fetch_single_ops_manager_def fetch_single_body_def Let_def ld cl s fd del: sequential_loop.simps(1))
         (safe; rule exI; rule refl)
  qed
qed

lemma sequential_loop_independent:
  assumes "distinct (map (\<lambda>om. get_cache_filename (url om) dt) xs)"
    and "\<forall>om \<in> set xs. files w (get_cache_filename (url om) dt) = files w0 (get_cache_filename (url om) dt)"
    and "\<forall>om \<in> set xs. \<forall>x. files w0 (get_cache_filename (url om) dt) \<noteq> Some (Unparseable x)"
    and "rf \<longrightarrow> (\<forall>om \<in> set xs. remove_error e (get_cache_filename (url om) dt) = None)"
  shows "\<exists>errs' w'. sequential_loop e dt rf xs (ad, tf, tc, errs) w =
           (Inr (ad @ concat (map (\<lambda>om. data (fst (fetch_single_ops_manager e dt rf om w0))) xs),
                 tf + sum_list (map (\<lambda>om. fetched (fst (fetch_single_ops_manager e dt rf om w0))) xs),
                 tc + sum_list (map (\<lambda>om. cached (fst (fetch_single_ops_manager e dt rf om w0))) xs),
                 errs'), w')"
  using assms
proof (induction xs arbitrary: w ad tf tc errs)
  case Nil
  show ?case by simp
next
  case (Cons om rest)
  let ?r = "fst (fetch_single_ops_manager e dt rf om w)"
  let ?w = "snd (fetch_single_ops_manager e dt rf om w)"
  have r: "?r = fst (fetch_single_ops_manager e dt rf om w0)"
    using fetch_single_local [of w om dt w0 e rf] Cons.prems(2) by simp
  have rd: "\<forall>x. files w (get_cache_filename (url om) dt) \<noteq> Some (Unparseable x)"
    using Cons.prems(2,3) by simp
  have rm: "rf \<longrightarrow> remove_error e (get_cache_filename (url om) dt) = None"
    using Cons.prems(4) by simp
  obtain errs1 where step: "sequential_loop e dt rf (om # rest) (ad, tf, tc, errs) w =
          sequential_loop e dt rf rest (ad @ data ?r, tf + fetched ?r, tc + cached ?r, errs1) ?w"
    using sequential_step [OF rd rm] by blast
  have frame: "\<forall>x \<in> set rest. files ?w (get_cache_filename (url x) dt) = files w0 (get_cache_filename (url x) dt)"
  proof
    fix x assume x: "x \<in> set rest"
    have "(\<lambda>om. get_cache_filename (url om) dt) x \<in> (\<lambda>om. get_cache_filename (url om) dt) ` set rest"
      using x by (rule imageI)
    then have "get_cache_filename (url x) dt \<in> set (map (\<lambda>om. get_cache_filename (url om) dt) rest)"
      by simp
    moreover have "get_cache_filename (url om) dt \<notin> set (map (\<lambda>om. get_cache_filename (url om) dt) rest)"
      using Cons.prems(1) by simp
    ultimately have "get_cache_filename (url x) dt \<noteq> get_cache_filename (url om) dt"
      by metis
    then have "files ?w (get_cache_filename (url x) dt) = files w (get_cache_filename (url x) dt)"
      by (rule fetch_single_frame)
    with Cons.prems(2) x show "files ?w (get_cache_filename (url x) dt) = files w0 (get_cache_filename (url x) dt)"
      by simp
  qed
  have "\<exists>errs' w'. sequential_loop e dt rf rest (ad @ data ?r, tf + fetched ?r, tc + cached ?r, errs1) ?w =
           (Inr ((ad @ data ?r) @ concat (map (\<lambda>om. data (fst (fetch_single_ops_manager e dt rf om w0))) rest),
                 (tf + fetched ?r) + sum_list (map (\<lambda>om. fetched (fst (fetch_single_ops_manager e dt rf om w0))) rest),
                 (tc + cached ?r) + sum_list (map (\<lambda>om. cached (fst (fetch_single_ops_manager e dt rf om w0))) rest),
                 errs'), w')"
    using Cons.prems(1,3,4) frame by (intro Cons.IH) simp_all
  then show ?case
    unfolding step r by (simp add: add.assoc)
qed

lemma completion_mset:
  assumes "mset completion = mset [0..<length oms]"
  shows "mset (map (\<lambda>i. oms ! i) completion) = mset oms"
proof -
  have "mset (map (\<lambda>i. oms ! i) completion) = image_mset (\<lambda>i. oms ! i) (mset completion)"
    by (rule mset_map)
  also have "\<dots> = image_mset (\<lambda>i. oms ! i) (mset [0..<length oms])"
    unfolding assms ..
  also have "\<dots> = mset (map (\<lambda>i. oms ! i) [0..<length oms])"
    by (rule mset_map [symmetric])
  also have "\<dots> = mset oms"
    by (simp only: map_nth)
  finally show ?thesis .
qed

lemma sum_list_perm:
  fixes g :: "'a \<Rightarrow> nat"
  assumes "mset xs = mset ys"
  shows "sum_list (map g xs) = sum_list (map g ys)"
proof -
  have "sum_list (map g xs) = sum_mset (image_mset g (mset xs))"
    by (simp only: sum_mset_sum_list [symmetric] mset_map)
  also have "\<dots> = sum_mset (image_mset g (mset ys))"
    unfolding assms ..
  also have "\<dots> = sum_list (map g ys)"
    by (simp only: sum_mset_sum_list [symmetric] mset_map)
  finally show ?thesis .
qed

lemma concat_perm:
  assumes "mset xs = mset ys"
  shows "mset (concat (map g xs)) = mset (concat (map g ys))"
proof -
  have c: "\<And>zs. mset (concat (map g zs)) = sum_mset (image_mset (\<lambda>z. mset (g z)) (mset zs))"
    by (induct_tac zs) simp_all
  show ?thesis unfolding c assms ..
qed

text \<open>
  Claim C3, for sources with pairwise distinct cache files none of which fails to be read
  or removed. Whatever the completion order, the sequential loop returns, its counts of
  fetched and cached records are those of the concurrent aggregation, and the records are
  the same up to their order.
\<close>

theorem counts_agree_on_separate_caches:
  assumes "distinct (map (\<lambda>om. get_cache_filename (url om) dt) oms)"
    and "mset completion = mset [0..<length oms]"
    and "\<forall>om \<in> set oms. \<forall>x. files w (get_cache_filename (url om) dt) \<noteq> Some (Unparseable x)"
    and "rf \<longrightarrow> (\<forall>om \<in> set oms. remove_error e (get_cache_filename (url om) dt) = None)"
  shows "\<exists>ad tf tc errs w'.
           sequential_loop e dt rf oms ([], 0, 0, []) w = (Inr (ad, tf, tc, errs), w') \<and>
           tf = total_fetched (fst (fetch_multiple_ops_managers_concurrent e oms dt mw rf completion w)) \<and>
           tc = total_cached (fst (fetch_multiple_ops_managers_concurrent e oms dt mw rf completion w)) \<and>
           mset ad = mset (all_data (fst (fetch_multiple_ops_managers_concurrent e oms dt mw rf completion w)))"
proof -
  let ?xs = "map (\<lambda>i. oms ! i) completion"
  let ?F = "\<lambda>om. fst (fetch_single_ops_manager e dt rf om w)"
  have perm: "mset ?xs = mset oms"
    using assms(2) by (rule completion_mset)
  have "mset (map (\<lambda>om. get_cache_filename (url om) dt) ?xs) = mset (map (\<lambda>om. get_cache_filename (url om) dt) oms)"
    using perm by (metis mset_map)
  then have dist: "distinct (map (\<lambda>om. get_cache_filename (url om) dt) ?xs)"
    using assms(1) by (metis mset_eq_imp_distinct_iff)
  have pool: "pool_results e dt rf ?xs w = map ?F ?xs"
    using dist by (rule pool_results_independent) simp
  obtain errs w' where seq: "sequential_loop e dt rf oms ([], 0, 0, []) w =
           (Inr ([] @ concat (map (\<lambda>om. data (?F om)) oms),
                 0 + sum_list (map (\<lambda>om. fetched (?F om)) oms),
                 0 + sum_list (map (\<lambda>om. cached (?F om)) oms), errs), w')"
    using sequential_loop_independent [OF assms(1) _ assms(3,4), of w "[]" 0 0 "[]"] by blast
  have tf: "total_fetched (fst (fetch_multiple_ops_managers_concurrent e oms dt mw rf completion w)) =
        sum_list (map (\<lambda>om. fetched (?F om)) ?xs)"
    unfolding concurrent_fields Let_def pool by (simp add: comp_def)
  have tc: "total_cached (fst (fetch_multiple_ops_managers_concurrent e oms dt mw rf completion w)) =
        sum_list (map (\<lambda>om. cached (?F om)) ?xs)"
    unfolding concurrent_fields Let_def pool by (simp add: comp_def)
  have ad: "all_data (fst (fetch_multiple_ops_managers_concurrent e oms dt mw rf completion w)) =
        concat (map (\<lambda>om. data (?F om)) ?xs)"
    unfolding concurrent_fields Let_def pool by (simp add: comp_def)
  show ?thesis
    unfolding tf tc ad seq
    using sum_list_perm [OF perm, of "\<lambda>om. fetched (?F om)"]
      sum_list_perm [OF perm, of "\<lambda>om. cached (?F om)"]
      concat_perm [OF perm, of "\<lambda>om. data (?F om)"]
    by simp
qed

text \<open>
  Where the claim fails. With a cache file that cannot be parsed the sequential loop
  raises, while the concurrent aggregation returns counts. With two base URLs that are
  sanitised to the same cache file, the sequential loop fetches one record and takes one
  from the cache written a moment before, while the concurrent aggregation in which the
  second task completes before the first one starts fetches two and takes two from cache.
\<close>

theorem counts_differ_counterexample:
  "fst (sequential_loop (quiet_env (\<lambda>u. Returned None)) ''backup'' False [src ''a''] ([], 0, 0, [])
         (with_file ''cache/backup/cached_a.json'' (Unparseable ''Expecting value''))) = Inl ''Expecting value'' \<and>
   total_fetched (fst (fetch_multiple_ops_managers_concurrent (quiet_env (\<lambda>u. Returned None)) [src ''a'']
         ''backup'' 4 False [0] (with_file ''cache/backup/cached_a.json'' (Unparseable ''Expecting value'')))) = 0 \<and>
   fst (sequential_loop (quiet_env two_answers) ''backup'' False [src ''a.b'', src ''a-b''] ([], 0, 0, []) empty_world)
     = Inr ([[(''Project'', ''p'')], [(''Project'', ''p'')]], 1, 1, []) \<and>
   total_fetched (fst (fetch_multiple_ops_managers_concurrent (quiet_env two_answers) [src ''a.b'', src ''a-b'']
         ''backup'' 4 False [1, 0] empty_world)) = 2 \<and>
   total_cached (fst (fetch_multiple_ops_managers_concurrent (quiet_env two_answers) [src ''a.b'', src ''a-b'']
         ''backup'' 4 False [1, 0] empty_world)) = 2"
  by (simp add: model_defs more_defs)

theorem counts_agree_on_separate_caches_witness:
  "distinct (map (\<lambda>om. get_cache_filename (url om) ''backup'') [src ''a.b'', src ''c'']) \<and>
   mset [1, 0] = mset [0..<length [src ''a.b'', src ''c'']] \<and>
   (\<exists>ad tf tc errs w'.
      sequential_loop (quiet_env two_answers) ''backup'' False [src ''a.b'', src ''c''] ([], 0, 0, []) empty_world
        = (Inr (ad, tf, tc, errs), w') \<and>
      tf = total_fetched (fst (fetch_multiple_ops_managers_concurrent (quiet_env two_answers)
              [src ''a.b'', src ''c''] ''backup'' 4 False [1, 0] empty_world)) \<and>
      tc = total_cached (fst (fetch_multiple_ops_managers_concurrent (quiet_env two_answers)
              [src ''a.b'', src ''c''] ''backup'' 4 False [1, 0] empty_world)) \<and>
      mset ad = mset (all_data (fst (fetch_multiple_ops_managers_concurrent (quiet_env two_answers)
              [src ''a.b'', src ''c''] ''backup'' 4 False [1, 0] empty_world))))"
proof -
  have d: "distinct (map (\<lambda>om. get_cache_filename (url om) ''backup'') [src ''a.b'', src ''c''])"
    by (simp add: get_cache_filename_def src_def)
  have p: "mset [1, 0] = mset [0..<length [src ''a.b'', src ''c'']]"
    by (simp add: upt_rec del: mset_upt)
  have r: "\<forall>om \<in> set [src ''a.b'', src ''c'']. \<forall>x.
             files empty_world (get_cache_filename (url om) ''backup'') \<noteq> Some (Unparseable x)"
    by (simp add: empty_world_def)
  have m: "False \<longrightarrow> (\<forall>om \<in> set [src ''a.b'', src ''c''].
             remove_error (quiet_env two_answers) (get_cache_filename (url om) ''backup'') = None)"
    by simp
  show ?thesis
    using d p counts_agree_on_separate_caches [OF d p r m, of 4] by blast
qed

section \<open>Errors in the status message\<close>









end
